theory Spec2Isabelle
  imports Complex_Main "HOL-Library.Sublist" "HOL-Library.AList"
begin

section \<open>JavaScript values\<close>

text \<open>
  The values the code handles untyped: what \<^verbatim>\<open>JSON.parse\<close> and \<^verbatim>\<open>response.json()\<close>
  return, and the objects the code builds. A number is the double it denotes; the code
  only ever tests a number for being zero. An object is its list of properties; a
  property read takes the first entry of that name.
\<close>

datatype jsval =
    JUndefined
  | JNull
  | JBool bool
  | JNumber rat
  | JString string
  | JArray "jsval list"
  | JObject "(string \<times> jsval) list"

text \<open>What a \<^verbatim>\<open>throw\<close> or a rejected promise carries, as far as the code tells them apart
  (it never does: every \<^verbatim>\<open>catch\<close> here handles all of them alike).\<close>

datatype js_error = TypeError | SyntaxError | Rejected

text \<open>\<^verbatim>\<open>ToBoolean\<close>: the values an \<^verbatim>\<open>if\<close>, \<^verbatim>\<open>!\<close>, \<^verbatim>\<open>&&\<close> and \<^verbatim>\<open>||\<close> take as true.\<close>

fun truthy :: "jsval \<Rightarrow> bool" where
  "truthy JUndefined = False"
| "truthy JNull = False"
| "truthy (JBool b) = b"
| "truthy (JNumber n) = (n \<noteq> 0)"
| "truthy (JString s) = (s \<noteq> [])"
| "truthy (JArray xs) = True"
| "truthy (JObject fs) = True"

text \<open>
  A property read \<^verbatim>\<open>v.name\<close>, for the names this code reads (\<^verbatim>\<open>id\<close>, \<^verbatim>\<open>user_id\<close>,
  \<^verbatim>\<open>title\<close>, \<^verbatim>\<open>status\<close>, \<^verbatim>\<open>due_date\<close>, \<^verbatim>\<open>tasks\<close>; no prototype defines them):
  reading from \<^verbatim>\<open>undefined\<close> or \<^verbatim>\<open>null\<close> throws a TypeError, an object gives the property
  or \<^verbatim>\<open>undefined\<close>, every other value gives \<^verbatim>\<open>undefined\<close>.
\<close>

fun get_prop :: "jsval \<Rightarrow> string \<Rightarrow> js_error + jsval" where
  "get_prop JUndefined name = Inl TypeError"
| "get_prop JNull name = Inl TypeError"
| "get_prop (JObject fs) name =
     Inr (case map_of fs name of None \<Rightarrow> JUndefined | Some v \<Rightarrow> v)"
| "get_prop v name = Inr JUndefined"

text \<open>\<^verbatim>\<open>String.prototype.toLowerCase\<close> on the letters A to Z. Strings are lists of bytes
  here; the case mappings of Unicode outside A to Z produce none of the letters of
  \<^verbatim>\<open>completed\<close>, the only string a lowered string is compared with.\<close>

definition toLower :: "char \<Rightarrow> char" where
  "toLower c =
     (case map_of (zip ''ABCDEFGHIJKLMNOPQRSTUVWXYZ'' ''abcdefghijklmnopqrstuvwxyz'') c of
        None \<Rightarrow> c
      | Some l \<Rightarrow> l)"

definition toLowerCase :: "string \<Rightarrow> string" where
  "toLowerCase s = map toLower s"

text \<open>The method call \<^verbatim>\<open>v.toLowerCase()\<close> on an untyped value: only a string has the
  method; calling it on a truthy value of another kind throws a TypeError.\<close>

fun call_toLowerCase :: "jsval \<Rightarrow> js_error + string" where
  "call_toLowerCase (JString s) = Inr (toLowerCase s)"
| "call_toLowerCase v = Inl TypeError"

section \<open>Local storage\<close>

text \<open>
  \<^verbatim>\<open>window.localStorage\<close>: string keys, string values, each key once, in the order
  \<^verbatim>\<open>localStorage.key(i)\<close> enumerates them. \<^verbatim>\<open>getItem\<close> answers \<^verbatim>\<open>null\<close> (here \<open>None\<close>)
  for a key that is not stored.
\<close>

type_synonym storage = "(string \<times> string) list"

definition getItem :: "storage \<Rightarrow> string \<Rightarrow> string option" where
  "getItem ls k = map_of ls k"

definition setItem :: "storage \<Rightarrow> string \<Rightarrow> string \<Rightarrow> storage" where
  "setItem ls k v = AList.update k v ls"

definition removeItem :: "storage \<Rightarrow> string \<Rightarrow> storage" where
  "removeItem ls k = AList.delete k ls"

definition keys :: "storage \<Rightarrow> string list" where
  "keys ls = map fst ls"

text \<open>\<^verbatim>\<open>if (s)\<close> and \<^verbatim>\<open>!!s\<close> on the result of \<^verbatim>\<open>getItem\<close>: \<^verbatim>\<open>null\<close> and the empty string
  are false.\<close>

fun present :: "string option \<Rightarrow> bool" where
  "present None = False"
| "present (Some s) = (s \<noteq> [])"

text \<open>\<^verbatim>\<open>localStorage.getItem(key) || d\<close>.\<close>

definition getItem_or :: "storage \<Rightarrow> string \<Rightarrow> string \<Rightarrow> string" where
  "getItem_or ls key d =
     (case getItem ls key of
        None \<Rightarrow> d
      | Some item \<Rightarrow> if item = [] then d else item)"

section \<open>Remote calls\<close>

record request =
  url :: string
  http_method :: string
  body :: jsval

text \<open>A response as the code reads it: the \<^verbatim>\<open>ok\<close> flag and what \<^verbatim>\<open>response.json()\<close>
  resolves to, or rejects with.\<close>

record response =
  ok :: bool
  json :: "js_error + jsval"

text \<open>\<^verbatim>\<open>fetch\<close>: the answer to a request, or the error the promise rejects with.\<close>

type_synonym fetch = "request \<Rightarrow> js_error + response"

section \<open>frontend/src/utils/guestMode.ts\<close>

text \<open>
  \<^verbatim>\<open>createGuestSessionInBackend\<close> posts the session id and waits for the answer inside a
  \<^verbatim>\<open>try\<close>; a rejection is logged and dropped. It returns nothing; what the model
  returns is the list of requests it issued.
\<close>

definition sessionRequest :: "string \<Rightarrow> request" where
  "sessionRequest sessionId =
     \<lparr>url = ''http://localhost:8000/api/guest/session'',
      http_method = ''POST'',
      body = JObject [(''session_id'', JString sessionId)]\<rparr>"

definition createGuestSessionInBackend :: "fetch \<Rightarrow> string \<Rightarrow> request list" where
  "createGuestSessionInBackend fetch sessionId =
     (case fetch (sessionRequest sessionId) of
        Inl e \<Rightarrow> [sessionRequest sessionId]
      | Inr r \<Rightarrow> [sessionRequest sessionId])"

text \<open>
  \<^verbatim>\<open>getOrCreateGuestSession\<close>. \<open>uuid\<close> is what \<^verbatim>\<open>crypto.randomUUID()\<close> returns when it is
  called. The result is the session id returned, the storage afterwards and the requests
  issued.
\<close>

definition getOrCreateGuestSession ::
  "fetch \<Rightarrow> string \<Rightarrow> storage \<Rightarrow> string \<times> storage \<times> request list" where
  "getOrCreateGuestSession fetch uuid ls =
     (let created =
            (let sessionId = ''guest-'' @ uuid;
                 ls' = setItem ls ''guest_session_id'' sessionId
             in (sessionId, ls', createGuestSessionInBackend fetch sessionId))
      in case getItem ls ''guest_session_id'' of
           None \<Rightarrow> created
         | Some sessionId \<Rightarrow> if sessionId = [] then created else (sessionId, ls, []))"

definition isGuest :: "storage \<Rightarrow> bool" where
  "isGuest ls = (\<not> present (getItem ls ''access_token''))"

definition isLoggedIn :: "storage \<Rightarrow> bool" where
  "isLoggedIn ls = present (getItem ls ''access_token'')"

definition getGuestSessionId :: "storage \<Rightarrow> string option" where
  "getGuestSessionId ls = getItem ls ''guest_session_id''"

definition clearGuestSession :: "storage \<Rightarrow> storage" where
  "clearGuestSession ls = removeItem ls ''guest_session_id''"

text \<open>The object \<^verbatim>\<open>{ migrated_tasks: 0, migrated_courses: 0 }\<close>.\<close>

definition nothing_migrated :: jsval where
  "nothing_migrated = JObject [(''migrated_tasks'', JNumber 0), (''migrated_courses'', JNumber 0)]"

text \<open>The request \<^verbatim>\<open>migrateGuestData\<close> sends.\<close>

definition migrateRequest :: "string \<Rightarrow> string \<Rightarrow> request" where
  "migrateRequest guestSessionId userId =
     \<lparr>url = ''http://localhost:8000/api/guest/migrate/'' @ guestSessionId,
      http_method = ''POST'',
      body = JObject [(''user_id'', JString userId)]\<rparr>"

text \<open>
  \<^verbatim>\<open>migrateGuestData\<close>: the value the promise resolves to and the storage afterwards.
  The \<^verbatim>\<open>try\<close> covers the request and the reading of the body; whatever is thrown there
  is logged, and the function falls through to its last \<^verbatim>\<open>return\<close>.
\<close>

definition migrateGuestData :: "fetch \<Rightarrow> storage \<Rightarrow> string \<Rightarrow> jsval \<times> storage" where
  "migrateGuestData fetch ls userId =
     (case getGuestSessionId ls of
        None \<Rightarrow> (nothing_migrated, ls)
      | Some guestSessionId \<Rightarrow>
          if guestSessionId = [] then (nothing_migrated, ls)
          else
            (case fetch (migrateRequest guestSessionId userId) of
               Inl e \<Rightarrow> (nothing_migrated, ls)
             | Inr r \<Rightarrow>
                 if ok r then
                   (case json r of
                      Inl e \<Rightarrow> (nothing_migrated, ls)
                    | Inr data \<Rightarrow> (data, clearGuestSession ls))
                 else (nothing_migrated, ls)))"

section \<open>The browser\<close>

text \<open>
  What the built-ins answer that the dashboard calls: the time \<^verbatim>\<open>new Date()\<close> reads (in
  milliseconds since the epoch), the offset of local time (\<^verbatim>\<open>LocalTZA(t, isUTC)\<close> of
  ECMAScript, in milliseconds: from a UTC time when \<open>isUTC\<close>, from a local time
  otherwise), the time value of \<^verbatim>\<open>new Date(v)\<close> (\<open>None\<close> is \<^verbatim>\<open>NaN\<close>, an invalid date),
  and \<^verbatim>\<open>JSON.parse\<close> (\<open>None\<close> when it throws).
\<close>

record browser =
  now_ms :: int
  LocalTZA :: "int \<Rightarrow> bool \<Rightarrow> int"
  Date_value :: "jsval \<Rightarrow> int option"
  JSON_parse :: "string \<Rightarrow> jsval option"

subsection \<open>Dates (ECMAScript, Date objects)\<close>

definition msPerDay :: int where
  "msPerDay = 86400000"

definition Day :: "int \<Rightarrow> int" where
  "Day t = t div msPerDay"

definition TimeWithinDay :: "int \<Rightarrow> int" where
  "TimeWithinDay t = t mod msPerDay"

definition DaysInYear :: "int \<Rightarrow> int" where
  "DaysInYear y =
     (if y mod 4 \<noteq> 0 then 365
      else if y mod 100 \<noteq> 0 then 366
      else if y mod 400 \<noteq> 0 then 365
      else 366)"

definition DayFromYear :: "int \<Rightarrow> int" where
  "DayFromYear y =
     365 * (y - 1970) + (y - 1969) div 4 - (y - 1901) div 100 + (y - 1601) div 400"

text \<open>The largest year that starts on or before the day of \<open>t\<close>: an estimate from the
  mean length of a year, moved by one where it is off.\<close>

definition YearFromTime :: "int \<Rightarrow> int" where
  "YearFromTime t =
     (let d = Day t; y = 1970 + (d * 400) div 146097
      in if DayFromYear (y + 1) \<le> d then y + 1
         else if d < DayFromYear y then y - 1
         else y)"

definition InLeapYear :: "int \<Rightarrow> int" where
  "InLeapYear t = DaysInYear (YearFromTime t) - 365"

definition DayWithinYear :: "int \<Rightarrow> int" where
  "DayWithinYear t = Day t - DayFromYear (YearFromTime t)"

text \<open>The day of the year on which month \<open>m\<close> (0 to 11) starts; \<open>leap\<close> is 1 in a
  leap year and 0 otherwise.\<close>

definition MonthStart :: "int \<Rightarrow> int \<Rightarrow> int" where
  "MonthStart m leap =
     (if m = 0 then 0
      else if m = 1 then 31
      else if m = 2 then 59 + leap
      else if m = 3 then 90 + leap
      else if m = 4 then 120 + leap
      else if m = 5 then 151 + leap
      else if m = 6 then 181 + leap
      else if m = 7 then 212 + leap
      else if m = 8 then 243 + leap
      else if m = 9 then 273 + leap
      else if m = 10 then 304 + leap
      else 334 + leap)"

definition MonthFromTime :: "int \<Rightarrow> int" where
  "MonthFromTime t =
     (let d = DayWithinYear t; leap = InLeapYear t
      in if d < MonthStart 1 leap then 0
         else if d < MonthStart 2 leap then 1
         else if d < MonthStart 3 leap then 2
         else if d < MonthStart 4 leap then 3
         else if d < MonthStart 5 leap then 4
         else if d < MonthStart 6 leap then 5
         else if d < MonthStart 7 leap then 6
         else if d < MonthStart 8 leap then 7
         else if d < MonthStart 9 leap then 8
         else if d < MonthStart 10 leap then 9
         else if d < MonthStart 11 leap then 10
         else 11)"

definition DateFromTime :: "int \<Rightarrow> int" where
  "DateFromTime t = DayWithinYear t - MonthStart (MonthFromTime t) (InLeapYear t) + 1"

text \<open>\<^verbatim>\<open>MakeDay\<close>: the day number of the given date; a month outside 0 to 11 carries
  into the year, a date outside the month carries into the neighbouring months.\<close>

definition MakeDay :: "int \<Rightarrow> int \<Rightarrow> int \<Rightarrow> int" where
  "MakeDay year month date =
     (let ym = year + month div 12; mn = month mod 12
      in DayFromYear ym + MonthStart mn (DaysInYear ym - 365) + date - 1)"

definition MakeDate :: "int \<Rightarrow> int \<Rightarrow> int" where
  "MakeDate day time = day * msPerDay + time"

text \<open>\<^verbatim>\<open>TimeClip\<close>: a time further than 8.64e15 ms from the epoch is no time value.\<close>

definition TimeClip :: "int \<Rightarrow> int option" where
  "TimeClip t = (if \<bar>t\<bar> > 8640000000000000 then None else Some t)"

definition LocalTime :: "browser \<Rightarrow> int \<Rightarrow> int" where
  "LocalTime b t = t + LocalTZA b t True"

definition UTC :: "browser \<Rightarrow> int \<Rightarrow> int" where
  "UTC b t = t - LocalTZA b t False"

text \<open>\<^verbatim>\<open>Date.prototype.getDate\<close> and \<^verbatim>\<open>Date.prototype.setDate\<close> on a valid date with
  time value \<open>tv\<close>; \<open>Date_setDate\<close> gives the new time value.\<close>

definition Date_getDate :: "browser \<Rightarrow> int \<Rightarrow> int" where
  "Date_getDate b tv = DateFromTime (LocalTime b tv)"

definition Date_setDate :: "browser \<Rightarrow> int \<Rightarrow> int \<Rightarrow> int option" where
  "Date_setDate b tv dt =
     (let t = LocalTime b tv;
          newDate = MakeDate (MakeDay (YearFromTime t) (MonthFromTime t) dt) (TimeWithinDay t)
      in TimeClip (UTC b newDate))"

section \<open>frontend/src/pages/Dashboard.tsx\<close>

subsection \<open>getLocalTasks\<close>

text \<open>The body of the loop, for the key at one index: the tasks collected so far, and
  the tasks after it. Whatever the \<^verbatim>\<open>try\<close> block throws is ignored.\<close>

definition getLocalTasks_key :: "browser \<Rightarrow> storage \<Rightarrow> jsval list \<Rightarrow> string \<Rightarrow> jsval list" where
  "getLocalTasks_key b ls tasks key =
     (if key \<noteq> [] \<and> prefix ''task_'' key then
        (case JSON_parse b (getItem_or ls key ''{}'') of
           None \<Rightarrow> tasks
         | Some task \<Rightarrow>
             if \<not> truthy task then tasks
             else
               (case get_prop task ''id'' of
                  Inl e \<Rightarrow> tasks
                | Inr task_id \<Rightarrow>
                    if \<not> truthy task_id then tasks
                    else
                      (case get_prop task ''user_id'' of
                         Inl e \<Rightarrow> tasks
                       | Inr user_id \<Rightarrow>
                           if user_id = JString ''guest'' then tasks @ [task] else tasks)))
      else tasks)"

fun getLocalTasks_loop :: "browser \<Rightarrow> storage \<Rightarrow> jsval list \<Rightarrow> string list \<Rightarrow> jsval list" where
  "getLocalTasks_loop b ls tasks [] = tasks"
| "getLocalTasks_loop b ls tasks (key # rest) =
     getLocalTasks_loop b ls (getLocalTasks_key b ls tasks key) rest"

definition getLocalTasks :: "browser \<Rightarrow> storage \<Rightarrow> jsval list" where
  "getLocalTasks b ls = getLocalTasks_loop b ls [] (keys ls)"

subsection \<open>computeStats\<close>

record stats =
  completed :: nat
  pending :: nat
  dueSoon :: nat

text \<open>\<^verbatim>\<open>dueSoonThreshold\<close>: a copy of \<^verbatim>\<open>now\<close>, its day of the month set to that of \<^verbatim>\<open>now\<close>
  plus 7.\<close>

definition dueSoonThreshold :: "browser \<Rightarrow> int option" where
  "dueSoonThreshold b = Date_setDate b (now_ms b) (Date_getDate b (now_ms b) + 7)"

text \<open>The test \<^verbatim>\<open>!Number.isNaN(dueDate.getTime()) && dueDate >= now && dueDate <= dueSoonThreshold\<close>;
  a comparison with an invalid date is false.\<close>

definition inDueSoonWindow :: "browser \<Rightarrow> jsval \<Rightarrow> bool" where
  "inDueSoonWindow b due_date =
     (case Date_value b due_date of
        None \<Rightarrow> False
      | Some dueDate \<Rightarrow>
          now_ms b \<le> dueDate \<and>
          (case dueSoonThreshold b of None \<Rightarrow> False | Some threshold \<Rightarrow> dueDate \<le> threshold))"

text \<open>The callback of \<^verbatim>\<open>tasks.forEach\<close>: the counters before the task and after it, or
  the error it throws.\<close>

definition countTask :: "browser \<Rightarrow> stats \<Rightarrow> jsval \<Rightarrow> js_error + stats" where
  "countTask b st task =
     (case get_prop task ''status'' of
        Inl e \<Rightarrow> Inl e
      | Inr task_status \<Rightarrow>
          (case call_toLowerCase (if truthy task_status then task_status else JString []) of
             Inl e \<Rightarrow> Inl e
           | Inr status \<Rightarrow>
               if status = ''completed'' then Inr (st\<lparr>completed := completed st + 1\<rparr>)
               else
                 (case get_prop task ''due_date'' of
                    Inl e \<Rightarrow> Inl e
                  | Inr due_date \<Rightarrow>
                      if truthy due_date \<and> inDueSoonWindow b due_date
                      then Inr (st\<lparr>pending := pending st + 1, dueSoon := dueSoon st + 1\<rparr>)
                      else Inr (st\<lparr>pending := pending st + 1\<rparr>))))"

fun forEach_countTask :: "browser \<Rightarrow> stats \<Rightarrow> jsval list \<Rightarrow> js_error + stats" where
  "forEach_countTask b st [] = Inr st"
| "forEach_countTask b st (task # rest) =
     (case countTask b st task of
        Inl e \<Rightarrow> Inl e
      | Inr st' \<Rightarrow> forEach_countTask b st' rest)"

definition computeStats :: "browser \<Rightarrow> jsval list \<Rightarrow> js_error + stats" where
  "computeStats b tasks = forEach_countTask b \<lparr>completed = 0, pending = 0, dueSoon = 0\<rparr> tasks"

subsection \<open>fetchSupabaseTasks and refreshStats\<close>

text \<open>The callback of \<^verbatim>\<open>.map\<close>: the four fields of a fetched task.\<close>

definition pickTaskFields :: "jsval \<Rightarrow> js_error + jsval" where
  "pickTaskFields task =
     (case get_prop task ''id'' of
        Inl e \<Rightarrow> Inl e
      | Inr task_id \<Rightarrow>
          (case get_prop task ''title'' of
             Inl e \<Rightarrow> Inl e
           | Inr title \<Rightarrow>
               (case get_prop task ''due_date'' of
                  Inl e \<Rightarrow> Inl e
                | Inr due_date \<Rightarrow>
                    (case get_prop task ''status'' of
                       Inl e \<Rightarrow> Inl e
                     | Inr task_status \<Rightarrow>
                         Inr (JObject [(''id'', task_id), (''title'', title),
                                       (''due_date'', due_date), (''status'', task_status)])))))"

fun map_pickTaskFields :: "jsval list \<Rightarrow> js_error + jsval list" where
  "map_pickTaskFields [] = Inr []"
| "map_pickTaskFields (task # rest) =
     (case pickTaskFields task of
        Inl e \<Rightarrow> Inl e
      | Inr t \<Rightarrow>
          (case map_pickTaskFields rest of
             Inl e \<Rightarrow> Inl e
           | Inr ts \<Rightarrow> Inr (t # ts)))"

text \<open>
  \<^verbatim>\<open>fetchSupabaseTasks\<close>. \<^verbatim>\<open>fetchAllTasks\<close> lives in \<^verbatim>\<open>utils/taskStorage\<close>; \<open>fetched\<close> is what
  importing and awaiting it gives: the error thrown, or the value returned. The result
  \<open>None\<close> is \<^verbatim>\<open>null\<close>. Only an array has \<^verbatim>\<open>.map\<close>: calling it on another truthy value
  throws, inside the \<^verbatim>\<open>try\<close>.
\<close>

definition fetchSupabaseTasks :: "js_error + jsval \<Rightarrow> jsval list option" where
  "fetchSupabaseTasks fetched =
     (case fetched of
        Inl e \<Rightarrow> None
      | Inr data \<Rightarrow>
          (case get_prop data ''tasks'' of
             Inl e \<Rightarrow> None
           | Inr tasks \<Rightarrow>
               (case (if truthy tasks then tasks else JArray []) of
                  JArray ts \<Rightarrow>
                    (case map_pickTaskFields ts of Inl e \<Rightarrow> None | Inr picked \<Rightarrow> Some picked)
                | _ \<Rightarrow> None)))"

text \<open>
  \<^verbatim>\<open>refreshStats\<close>: the snapshot it sets, or the error \<^verbatim>\<open>computeStats\<close> throws. \<open>fetched\<close>
  is consulted only where the code calls \<^verbatim>\<open>fetchSupabaseTasks\<close>.
\<close>

definition refreshStats :: "browser \<Rightarrow> storage \<Rightarrow> js_error + jsval \<Rightarrow> js_error + stats" where
  "refreshStats b ls fetched =
     (if present (getItem ls ''access_token'') then
        (case fetchSupabaseTasks fetched of
           None \<Rightarrow> computeStats b (getLocalTasks b ls)
         | Some supabaseTasks \<Rightarrow>
             if length supabaseTasks > 0 then computeStats b supabaseTasks
             else computeStats b (getLocalTasks b ls))
      else computeStats b (getLocalTasks b ls))"

section \<open>The navigation bar: logout\<close>

text \<open>\<^verbatim>\<open>handleLogout\<close>, as far as it touches local storage: it then closes the menu and
  navigates to \<^verbatim>\<open>/auth\<close>.\<close>

definition handleLogout :: "storage \<Rightarrow> storage" where
  "handleLogout ls =
     removeItem (removeItem (removeItem ls ''access_token'') ''user_email'') ''user_id''"

section \<open>frontend/src/utils/debug/test-logout-cleanup.js\<close>

text \<open>The keys \<^verbatim>\<open>checkLocalStorageData\<close> reports as guest data.\<close>

definition isGuestKey :: "string \<Rightarrow> bool" where
  "isGuestKey key =
     (prefix ''task_'' key \<or> prefix ''course_'' key \<or> key = ''guest_session_id'' \<or>
      prefix ''uploaded_files'' key \<or> prefix ''guest_'' key)"

definition guestKeys :: "storage \<Rightarrow> string list" where
  "guestKeys ls = filter isGuestKey (keys ls)"

text \<open>The number it returns, which the script expects to be 0 after a logout.\<close>

definition checkLocalStorageData :: "storage \<Rightarrow> nat" where
  "checkLocalStorageData ls = length (guestKeys ls)"

section \<open>Notions of the specification\<close>

text \<open>A remote call of the migration that fails: the request is rejected, the response
  is not ok, or the body of an ok response cannot be read.\<close>

fun migrate_call_failed :: "js_error + response \<Rightarrow> bool" where
  "migrate_call_failed (Inl e) = True"
| "migrate_call_failed (Inr r) = (if ok r then isl (json r) else True)"

text \<open>The scenario of the logout cleanup test: three tasks and one course with its task
  index under the guest token \<^verbatim>\<open>guest-T1\<close>, and an access token.\<close>

definition P7_storage :: storage where
  \<open>P7_storage =
     [(''guest_session_id'', ''guest-T1''),
      (''task_a'', ''{"id":"a","title":"Essay","user_id":"guest","course_id":"x"}''),
      (''task_b'', ''{"id":"b","title":"Quiz","user_id":"guest","course_id":"x"}''),
      (''task_c'', ''{"id":"c","title":"Lab","user_id":"guest","course_id":"x"}''),
      (''course_x'', ''{"id":"x","name":"Algebra","user_id":"guest"}''),
      (''course_x_tasks'', ''["a","b","c"]''),
      (''access_token'', ''token-1'')]\<close>

text \<open>Two characters that are the same letter up to case, and two strings that are equal
  up to the case of their letters.\<close>

definition case_pairs :: "(char \<times> char) list" where
  "case_pairs = zip ''ABCDEFGHIJKLMNOPQRSTUVWXYZ'' ''abcdefghijklmnopqrstuvwxyz''"

definition same_letter :: "char \<Rightarrow> char \<Rightarrow> bool" where
  "same_letter a c = (a = c \<or> (a, c) \<in> set case_pairs \<or> (c, a) \<in> set case_pairs)"

definition eq_up_to_case :: "string \<Rightarrow> string \<Rightarrow> bool" where
  "eq_up_to_case s t = list_all2 same_letter s t"

text \<open>A task as the interface \<^verbatim>\<open>StoredTask\<close> declares it: an object with strings \<^verbatim>\<open>id\<close> and
  \<^verbatim>\<open>title\<close> and with \<^verbatim>\<open>due_date\<close> and \<^verbatim>\<open>status\<close> absent or strings.\<close>

fun is_string :: "jsval \<Rightarrow> bool" where
  "is_string (JString s) = True"
| "is_string v = False"

fun is_optional_string :: "jsval \<Rightarrow> bool" where
  "is_optional_string JUndefined = True"
| "is_optional_string (JString s) = True"
| "is_optional_string v = False"

fun is_StoredTask :: "jsval \<Rightarrow> bool" where
  "is_StoredTask (JObject fs) =
     (is_string (case map_of fs ''id'' of None \<Rightarrow> JUndefined | Some v \<Rightarrow> v) \<and>
      is_string (case map_of fs ''title'' of None \<Rightarrow> JUndefined | Some v \<Rightarrow> v) \<and>
      is_optional_string (case map_of fs ''due_date'' of None \<Rightarrow> JUndefined | Some v \<Rightarrow> v) \<and>
      is_optional_string (case map_of fs ''status'' of None \<Rightarrow> JUndefined | Some v \<Rightarrow> v))"
| "is_StoredTask v = False"

text \<open>A task whose status \<^verbatim>\<open>computeStats\<close> can read: the task is neither \<^verbatim>\<open>null\<close> nor
  \<^verbatim>\<open>undefined\<close>, and its status is a string or a false value (absent, \<^verbatim>\<open>null\<close>, ...).
  Every \<^verbatim>\<open>StoredTask\<close> is one.\<close>

definition readable :: "jsval \<Rightarrow> bool" where
  "readable task =
     (case get_prop task ''status'' of
        Inl e \<Rightarrow> False
      | Inr v \<Rightarrow> if truthy v then is_string v else True)"

text \<open>The values a property cannot be read from.\<close>

fun nullish :: "jsval \<Rightarrow> bool" where
  "nullish JUndefined = True"
| "nullish JNull = True"
| "nullish v = False"

text \<open>The status of the task equals \<^verbatim>\<open>completed\<close> up to letter case.\<close>

definition status_completed :: "jsval \<Rightarrow> bool" where
  "status_completed task =
     (case get_prop task ''status'' of
        Inr (JString s) \<Rightarrow> eq_up_to_case s ''completed''
      | _ \<Rightarrow> False)"

text \<open>The parsed due timestamp of the task: the time value of its due date, when the field
  is there (an empty string is no date) and denotes a valid date.\<close>

definition parsed_due :: "browser \<Rightarrow> jsval \<Rightarrow> int option" where
  "parsed_due b task =
     (case get_prop task ''due_date'' of
        Inl e \<Rightarrow> None
      | Inr v \<Rightarrow> if truthy v then Date_value b v else None)"

text \<open>The time \<open>n\<close> calendar days after \<open>t\<close>: the same local time of day, \<open>n\<close> days
  later in the local calendar (not \<open>n\<close> times 86400 seconds later, where the offset of
  local time changes in between).\<close>

definition plus_calendar_days :: "browser \<Rightarrow> int \<Rightarrow> int \<Rightarrow> int option" where
  "plus_calendar_days b t n = TimeClip (UTC b (LocalTime b t + n * msPerDay))"

text \<open>Due soon: a task that is not completed and whose parsed due timestamp lies between
  now and now plus 7 calendar days, both bounds included.\<close>

definition due_soon :: "browser \<Rightarrow> jsval \<Rightarrow> bool" where
  "due_soon b task =
     (if status_completed task then False
      else
        (case parsed_due b task of
           None \<Rightarrow> False
         | Some d \<Rightarrow>
             (case plus_calendar_days b (now_ms b) 7 of
                None \<Rightarrow> False
              | Some T \<Rightarrow> now_ms b \<le> d \<and> d \<le> T)))"

section \<open>Example data\<close>

text \<open>A zone five hours behind UTC that moves its clocks forward by one hour at
  2024-03-10T07:00:00Z (02:00 local time), as New York does; seen from a UTC time and
  from a local time.\<close>

definition spring_LocalTZA :: "int \<Rightarrow> bool \<Rightarrow> int" where
  "spring_LocalTZA t isUTC =
     (if isUTC then (if t < 1710054000000 then - 18000000 else - 14400000)
      else (if t < 1710036000000 then - 18000000 else - 14400000))"

text \<open>The time values of the date strings used below; every other value is no date.\<close>

definition example_dates :: "(jsval \<times> int) list" where
  "example_dates =
     [(JString ''2024-03-12T10:00:00.000Z'', 1710237600000),
      (JString ''2024-03-15T16:00:00.000Z'', 1710518400000),
      (JString ''2024-03-15T16:00:01.000Z'', 1710518401000)]"

text \<open>Tasks as \<^verbatim>\<open>computeStats\<close> receives them.\<close>

definition task_done :: jsval where
  "task_done = JObject [(''id'', JString ''a''), (''title'', JString ''Essay''),
     (''due_date'', JString ''2024-03-12T10:00:00.000Z''), (''status'', JString ''COMPLETED'')]"

definition task_done_undated :: jsval where
  "task_done_undated = JObject [(''id'', JString ''b''), (''title'', JString ''Quiz''),
     (''status'', JString ''Completed'')]"

definition task_at_threshold :: jsval where
  "task_at_threshold = JObject [(''id'', JString ''c''), (''title'', JString ''Lab''),
     (''due_date'', JString ''2024-03-15T16:00:00.000Z''), (''status'', JString ''pending'')]"

definition task_after_threshold :: jsval where
  "task_after_threshold = JObject [(''id'', JString ''d''), (''title'', JString ''Project''),
     (''due_date'', JString ''2024-03-15T16:00:01.000Z''), (''status'', JString ''pending'')]"

definition task_undated :: jsval where
  "task_undated = JObject [(''id'', JString ''e''), (''title'', JString ''Reading'')]"

definition task_bad_date :: jsval where
  "task_bad_date = JObject [(''id'', JString ''f''), (''title'', JString ''Exam''),
     (''due_date'', JString ''next week''), (''status'', JString ''in progress'')]"

definition example_tasks :: "jsval list" where
  "example_tasks = [task_done, task_done_undated, task_at_threshold, task_after_threshold,
                    task_undated, task_bad_date]"

text \<open>Stored texts and what \<^verbatim>\<open>JSON.parse\<close> makes of them; it throws on every other text.\<close>

definition stored_guest_task :: string where
  \<open>stored_guest_task = ''{"id":"a","title":"Essay","user_id":"guest","status":"Completed"}''\<close>

definition stored_registered_task :: string where
  \<open>stored_registered_task = ''{"id":"b","title":"Quiz","user_id":"registered","status":"pending"}''\<close>

definition parsed_guest_task :: jsval where
  "parsed_guest_task = JObject [(''id'', JString ''a''), (''title'', JString ''Essay''),
     (''user_id'', JString ''guest''), (''status'', JString ''Completed'')]"

definition parsed_registered_task :: jsval where
  "parsed_registered_task = JObject [(''id'', JString ''b''), (''title'', JString ''Quiz''),
     (''user_id'', JString ''registered''), (''status'', JString ''pending'')]"

definition example_storage :: storage where
  \<open>example_storage =
     [(''guest_session_id'', ''guest-T1''),
      (''task_a'', stored_guest_task),
      (''task_b'', stored_registered_task),
      (''task_c'', ''{"id":''),
      (''course_x'', stored_guest_task)]\<close>

definition example_parse :: "string \<Rightarrow> jsval option" where
  "example_parse =
     map_of [(stored_guest_task, parsed_guest_task),
             (stored_registered_task, parsed_registered_task),
             (''{}'', JObject [])]"

text \<open>The same storage after a login, and what the remote holds for the account.\<close>

definition logged_in_storage :: storage where
  "logged_in_storage = (''access_token'', ''token-1'') # example_storage"

definition remote_data :: jsval where
  "remote_data = JObject [(''tasks'', JArray [task_at_threshold, task_undated])]"

text \<open>A browser in that zone at 2024-03-08T17:00:00Z, 12:00 local time.\<close>

definition example_browser :: browser where
  "example_browser =
     \<lparr>now_ms = 1709917200000, LocalTZA = spring_LocalTZA,
      Date_value = map_of example_dates, JSON_parse = example_parse\<rparr>"

section \<open>Local storage: what the operations do\<close>

lemma getItem_setItem:
  "getItem (setItem ls k v) k' = (if k' = k then Some v else getItem ls k')"
  by (simp add: getItem_def setItem_def update_conv')

lemma getItem_removeItem:
  "getItem (removeItem ls k) k' = (if k' = k then None else getItem ls k')"
  by (simp add: getItem_def removeItem_def delete_conv')

lemma keys_removeItem: "keys (removeItem ls k) = filter (\<lambda>k'. k' \<noteq> k) (keys ls)"
  by (induction ls) (auto simp: keys_def removeItem_def)

section \<open>Letter case\<close>

lemma case_pairs_distinct: "distinct (map fst case_pairs)"
  by (simp add: case_pairs_def)

lemma toLower_map_of: "toLower c = (case map_of case_pairs c of None \<Rightarrow> c | Some l \<Rightarrow> l)"
  by (simp add: toLower_def case_pairs_def)

lemma toLower_eq_iff:
  assumes "l \<notin> fst ` set case_pairs"
  shows "toLower c = l \<longleftrightarrow> same_letter c l"
proof -
  have no: "(l, c) \<notin> set case_pairs" using assms by force
  have none: "map_of case_pairs l = None" using assms by (simp add: map_of_eq_None_iff)
  show ?thesis
  proof (cases "map_of case_pairs c")
    case None
    then have "(c, l) \<notin> set case_pairs" 
      by (metis map_of_eq_None_iff fst_conv image_eqI)
    with None no show ?thesis by (simp add: toLower_map_of same_letter_def)
  next
    case (Some u)
    then have "(c, l) \<in> set case_pairs \<longleftrightarrow> u = l"
      using case_pairs_distinct by (metis map_of_eq_Some_iff option.inject)
    moreover have "c \<noteq> l" using Some none by auto
    ultimately show ?thesis using Some no by (simp add: toLower_map_of same_letter_def)
  qed
qed

lemma toLowerCase_eq_iff:
  "set t \<inter> fst ` set case_pairs = {} \<Longrightarrow> toLowerCase s = t \<longleftrightarrow> eq_up_to_case s t"
proof (induction t arbitrary: s)
  case Nil
  then show ?case by (simp add: toLowerCase_def eq_up_to_case_def)
next
  case (Cons l t)
  then have l: "l \<notin> fst ` set case_pairs" and t: "set t \<inter> fst ` set case_pairs = {}"
    by auto
  show ?case
  proof (cases s)
    case Nil
    then show ?thesis by (simp add: toLowerCase_def eq_up_to_case_def)
  next
    case (Cons c s')
    with Cons.IH [OF t, of s'] toLower_eq_iff [OF l, of c] show ?thesis
      by (simp add: toLowerCase_def eq_up_to_case_def)
  qed
qed

lemma completed_lower: "set ''completed'' \<inter> fst ` set case_pairs = {}"
  by (simp add: case_pairs_def)

lemma toLowerCase_completed: "toLowerCase s = ''completed'' \<longleftrightarrow> eq_up_to_case s ''completed''"
  by (rule toLowerCase_eq_iff [OF completed_lower])

section \<open>Dates: setting the day of the month\<close>

lemma div_bounds:
  fixes a n :: int
  assumes "0 < n"
  shows "n * (a div n) \<le> a" and "a < n * (a div n) + n"
proof -
  have "a = n * (a div n) + a mod n" by simp
  moreover have "0 \<le> a mod n" and "a mod n < n" using assms by simp_all
  ultimately show "n * (a div n) \<le> a" and "a < n * (a div n) + n" by linarith+
qed

lemma DayFromYear_lower: "400 * DayFromYear (y - 1) \<le> 146097 * (y - 1970)"
proof -
  define q4 where "q4 = (y - 1 - 1969) div 4"
  define q100 where "q100 = (y - 1 - 1901) div 100"
  define q400 where "q400 = (y - 1 - 1601) div 400"
  have "4 * q4 \<le> y - 1 - 1969"
    and "y - 1 - 1901 < 100 * q100 + 100"
    and 3: "400 * q400 \<le> y - 1 - 1601"
    unfolding q4_def q100_def q400_def by (rule div_bounds, simp)+
  then have 1: "400 * q4 \<le> 100 * y - 197000" and 2: "4 * y - 8008 < 400 * q100"
    by simp_all
  have "DayFromYear (y - 1) = 365 * (y - 1 - 1970) + q4 - q100 + q400"
    by (simp add: DayFromYear_def q4_def q100_def q400_def)
  with 1 2 3 show ?thesis by simp
qed

lemma DayFromYear_upper: "146097 * (y - 1969) \<le> 400 * DayFromYear (y + 2)"
proof -
  define q4 where "q4 = (y + 2 - 1969) div 4"
  define q100 where "q100 = (y + 2 - 1901) div 100"
  define q400 where "q400 = (y + 2 - 1601) div 400"
  have "y + 2 - 1969 < 4 * q4 + 4"
    and "100 * q100 \<le> y + 2 - 1901"
    and 3: "y + 2 - 1601 < 400 * q400 + 400"
    unfolding q4_def q100_def q400_def by (rule div_bounds, simp)+
  then have 1: "100 * y - 197100 < 400 * q4" and 2: "400 * q100 \<le> 4 * y - 7596"
    by simp_all
  have "DayFromYear (y + 2) = 365 * (y + 2 - 1970) + q4 - q100 + q400"
    by (simp add: DayFromYear_def q4_def q100_def q400_def)
  with 1 2 3 show ?thesis by simp
qed

text \<open>\<open>YearFromTime\<close> is the year the day of \<open>t\<close> falls in.\<close>

lemma YearFromTime_bounds:
  "DayFromYear (YearFromTime t) \<le> Day t \<and> Day t < DayFromYear (YearFromTime t + 1)"
proof -
  define d where "d = Day t"
  define y where "y = 1970 + (d * 400) div 146097"
  from div_bounds [of 146097 "d * 400"]
  have e: "146097 * (y - 1970) \<le> 400 * d" "400 * d < 146097 * (y - 1969)"
    by (simp_all add: y_def)
  from e(1) DayFromYear_lower [of y] have l: "DayFromYear (y - 1) \<le> d" by simp
  from e(2) DayFromYear_upper [of y] have u: "d < DayFromYear (y + 2)" by simp
  have "YearFromTime t = (if DayFromYear (y + 1) \<le> d then y + 1
         else if d < DayFromYear y then y - 1 else y)"
    by (simp add: YearFromTime_def Let_def d_def y_def)
  with l u show ?thesis
    by (auto simp: d_def [symmetric] add.commute)
qed

lemma MonthFromTime_range: "0 \<le> MonthFromTime t \<and> MonthFromTime t \<le> 11"
  by (simp add: MonthFromTime_def Let_def)

text \<open>Setting the day of the month to the current one plus \<open>n\<close> moves the local time
  by \<open>n\<close> days, across the ends of months and years.\<close>

lemma MakeDay_same_month:
  "MakeDay (YearFromTime t) (MonthFromTime t) (DateFromTime t + n) = Day t + n"
proof -
  from MonthFromTime_range [of t]
  have "MonthFromTime t div 12 = 0" and "MonthFromTime t mod 12 = MonthFromTime t"
    by simp_all
  then show ?thesis
    by (simp add: MakeDay_def DateFromTime_def DayWithinYear_def InLeapYear_def)
qed

lemma Day_TimeWithinDay: "MakeDate (Day t) (TimeWithinDay t) = t"
  by (simp add: MakeDate_def Day_def TimeWithinDay_def)

lemma Date_setDate_getDate:
  "Date_setDate b tv (Date_getDate b tv + n) = plus_calendar_days b tv n"
proof -
  have "MakeDate (Day (LocalTime b tv) + n) (TimeWithinDay (LocalTime b tv))
          = LocalTime b tv + n * msPerDay"
    using Day_TimeWithinDay [of "LocalTime b tv"] by (simp add: MakeDate_def algebra_simps)
  then show ?thesis
    by (simp add: Date_setDate_def Date_getDate_def plus_calendar_days_def MakeDay_same_month)
qed

lemma dueSoonThreshold_calendar: "dueSoonThreshold b = plus_calendar_days b (now_ms b) 7"
  by (simp add: dueSoonThreshold_def Date_setDate_getDate)

section \<open>Counting tasks\<close>

lemma is_StoredTask_readable: "is_StoredTask task \<Longrightarrow> readable task"
  by (cases task) (auto simp: readable_def split: option.splits elim: is_optional_string.elims)

lemma readable_status:
  "readable task \<Longrightarrow>
   \<exists>v. get_prop task ''status'' = Inr v \<and> (truthy v \<longrightarrow> (\<exists>s. v = JString s \<and> s \<noteq> []))"
  by (auto simp: readable_def split: sum.splits if_splits elim: is_string.elims)

lemma get_prop_Inr: "get_prop task n = Inr v \<Longrightarrow> \<exists>w. get_prop task m = Inr w"
  by (cases task) auto

text \<open>What the callback does with a task whose status it can read, and with one whose
  status it cannot.\<close>

lemma countTask_readable:
  assumes "readable task"
  shows "countTask b st task =
           Inr (if status_completed task then st\<lparr>completed := completed st + 1\<rparr>
                else if due_soon b task then st\<lparr>pending := pending st + 1, dueSoon := dueSoon st + 1\<rparr>
                else st\<lparr>pending := pending st + 1\<rparr>)"
proof -
  from readable_status [OF assms] obtain v where
    v: "get_prop task ''status'' = Inr v" and tv: "truthy v \<longrightarrow> (\<exists>s. v = JString s \<and> s \<noteq> [])"
    by blast
  from get_prop_Inr [OF v] obtain w where w: "get_prop task ''due_date'' = Inr w" by blast
  show ?thesis
  proof (cases "truthy v")
    case True
    with tv obtain s where s: "v = JString s" "s \<noteq> []" by blast
    show ?thesis
      using v w s
      by (auto simp: countTask_def status_completed_def due_soon_def parsed_due_def
            inDueSoonWindow_def toLowerCase_completed dueSoonThreshold_calendar
            split: option.splits)
  next
    case False
    have "\<not> eq_up_to_case [] ''completed''" by (simp add: eq_up_to_case_def)
    moreover have "toLowerCase [] \<noteq> ''completed''" by (simp add: toLowerCase_def)
    ultimately show ?thesis
      using v w False
      by (cases v) (auto simp: countTask_def status_completed_def due_soon_def parsed_due_def
            inDueSoonWindow_def dueSoonThreshold_calendar split: option.splits)
  qed
qed

lemma get_prop_Inl: "get_prop task n = Inl e \<Longrightarrow> e = TypeError"
  by (cases task) auto

lemma call_toLowerCase_not_string: "\<not> is_string v \<Longrightarrow> call_toLowerCase v = Inl TypeError"
  by (cases v) auto

lemma countTask_unreadable:
  assumes "\<not> readable task"
  shows "countTask b st task = Inl TypeError"
proof (cases "get_prop task ''status''")
  case (Inl e)
  with get_prop_Inl [OF Inl] show ?thesis by (simp add: countTask_def)
next
  case (Inr v)
  with assms have "truthy v" and "\<not> is_string v"
    by (auto simp: readable_def split: if_splits)
  with Inr show ?thesis
    by (simp add: countTask_def call_toLowerCase_not_string)
qed

text \<open>The counters a list of readable tasks adds.\<close>

lemma forEach_countTask_readable:
  "list_all readable tasks \<Longrightarrow>
   forEach_countTask b st tasks =
     Inr \<lparr>completed = completed st + length (filter status_completed tasks),
          pending = pending st + length (filter (\<lambda>t. \<not> status_completed t) tasks),
          dueSoon = dueSoon st + length (filter (due_soon b) tasks)\<rparr>"
proof (induction tasks arbitrary: st)
  case Nil
  then show ?case by simp
next
  case (Cons task tasks)
  then have r: "readable task" and rs: "list_all readable tasks" by simp_all
  have ds: "due_soon b task \<Longrightarrow> \<not> status_completed task"
    by (auto simp: due_soon_def split: if_splits)
  show ?case
    using ds by (simp add: countTask_readable [OF r] Cons.IH [OF rs])
qed

lemma forEach_countTask_Inr_readable:
  "forEach_countTask b st tasks = Inr st' \<Longrightarrow> list_all readable tasks"
proof (induction tasks arbitrary: st)
  case Nil
  then show ?case by simp
next
  case (Cons task tasks)
  then show ?case
    by (cases "readable task") (auto simp: countTask_unreadable split: sum.splits)
qed

lemma computeStats_readable:
  "list_all readable tasks \<Longrightarrow>
   computeStats b tasks =
     Inr \<lparr>completed = length (filter status_completed tasks),
          pending = length (filter (\<lambda>t. \<not> status_completed t) tasks),
          dueSoon = length (filter (due_soon b) tasks)\<rparr>"
  by (simp add: computeStats_def forEach_countTask_readable)

lemma computeStats_Inr_readable: "computeStats b tasks = Inr st \<Longrightarrow> list_all readable tasks"
  unfolding computeStats_def by (rule forEach_countTask_Inr_readable)

text \<open>Unfolding the example data and evaluating \<^verbatim>\<open>computeStats\<close> on it.\<close>

lemmas example_defs = example_browser_def example_dates_def spring_LocalTZA_def
  task_done_def task_done_undated_def task_at_threshold_def task_after_threshold_def
  task_undated_def task_bad_date_def example_tasks_def stored_guest_task_def
  stored_registered_task_def parsed_guest_task_def parsed_registered_task_def
  example_storage_def example_parse_def logged_in_storage_def remote_data_def

lemmas compute_defs = computeStats_def countTask_def inDueSoonWindow_def dueSoonThreshold_calendar
  plus_calendar_days_def TimeClip_def UTC_def LocalTime_def msPerDay_def toLowerCase_def toLower_def

lemma due_soon_not_completed: "due_soon b task \<Longrightarrow> \<not> status_completed task"
  by (auto simp: due_soon_def split: if_splits)

lemma due_soon_among_pending:
  "length (filter (due_soon b) tasks) \<le> length (filter (\<lambda>t. \<not> status_completed t) tasks)"
  by (induction tasks) (auto dest: due_soon_not_completed)

lemma forEach_countTask_unreadable:
  "\<not> list_all readable tasks \<Longrightarrow> forEach_countTask b st tasks = Inl TypeError"
proof (induction tasks arbitrary: st)
  case Nil
  then show ?case by simp
next
  case (Cons task tasks)
  show ?case
  proof (cases "readable task")
    case True
    with Cons.prems have "\<not> list_all readable tasks" by simp
    from Cons.IH [OF this] show ?thesis by (simp add: countTask_readable [OF True])
  next
    case False
    then show ?thesis by (simp add: countTask_unreadable)
  qed
qed

lemma computeStats_unreadable:
  "\<not> list_all readable tasks \<Longrightarrow> computeStats b tasks = Inl TypeError"
  by (simp add: computeStats_def forEach_countTask_unreadable)

text \<open>
  C9. The counts of \<^verbatim>\<open>computeStats\<close> partition the list: whenever it returns, \<open>completed\<close>
  plus \<open>pending\<close> is the number of tasks in the list, and \<open>dueSoon\<close> is at most
  \<open>pending\<close>. It returns for every list of tasks typed as \<^verbatim>\<open>StoredTask\<close>.
\<close>

theorem computeStats_partition:
  "(list_all is_StoredTask tasks \<longrightarrow> (\<exists>st. computeStats b tasks = Inr st))
   \<and> (\<forall>st. computeStats b tasks = Inr st \<longrightarrow>
          completed st + pending st = length tasks \<and> dueSoon st \<le> pending st)"
proof (intro conjI allI impI)
  assume "list_all is_StoredTask tasks"
  then have "list_all readable tasks"
    by (simp add: list_all_iff is_StoredTask_readable)
  then show "\<exists>st. computeStats b tasks = Inr st"
    by (simp add: computeStats_readable)
next
  fix st assume st: "computeStats b tasks = Inr st"
  from computeStats_Inr_readable [OF st] have "list_all readable tasks" .
  from computeStats_readable [OF this, of b] st
  have c: "completed st = length (filter status_completed tasks)"
    and p: "pending st = length (filter (\<lambda>t. \<not> status_completed t) tasks)"
    and d: "dueSoon st = length (filter (due_soon b) tasks)"
    by auto
  from c p show "completed st + pending st = length tasks"
    by (simp add: sum_length_filter_compl)
  from d p show "dueSoon st \<le> pending st"
    by (simp add: due_soon_among_pending)
qed

text \<open>On the six example tasks: two completed, four pending, one of them due soon.\<close>

theorem computeStats_partition_witness:
  "list_all is_StoredTask example_tasks
   \<and> computeStats example_browser example_tasks = Inr \<lparr>completed = 2, pending = 4, dueSoon = 1\<rparr>
   \<and> (2::nat) + 4 = length example_tasks \<and> (1::nat) \<le> 4"
proof -
  have t: "list_all is_StoredTask example_tasks"
    by (simp add: example_defs)
  have v: "computeStats example_browser example_tasks
             = Inr \<lparr>completed = 2, pending = 4, dueSoon = 1\<rparr>"
    by (simp add: example_defs compute_defs)
  from computeStats_partition [of example_tasks example_browser] t v
  show ?thesis by auto
qed

text \<open>
  C10. \<^verbatim>\<open>computeStats\<close> matches the status \<^verbatim>\<open>completed\<close> up to letter case: on a list of
  tasks whose status is a string or absent, \<open>completed\<close> counts exactly the tasks whose
  status equals \<^verbatim>\<open>completed\<close> up to the case of its letters, and \<open>pending\<close> counts all
  the others, those with another status and those with none.
\<close>

theorem computeStats_status_up_to_case:
  assumes "list_all readable tasks"
  shows "\<exists>st. computeStats b tasks = Inr st
           \<and> completed st = length (filter status_completed tasks)
           \<and> pending st = length (filter (\<lambda>t. \<not> status_completed t) tasks)"
  using assms by (simp add: computeStats_readable)

text \<open>The example tasks have the statuses \<^verbatim>\<open>COMPLETED\<close>, \<^verbatim>\<open>Completed\<close>, \<^verbatim>\<open>pending\<close> (twice),
  none, and \<^verbatim>\<open>in progress\<close>.\<close>

theorem computeStats_status_up_to_case_witness:
  "list_all readable example_tasks
   \<and> map status_completed example_tasks = [True, True, False, False, False, False]
   \<and> computeStats example_browser example_tasks = Inr \<lparr>completed = 2, pending = 4, dueSoon = 1\<rparr>"
proof -
  have r: "list_all readable example_tasks"
    by (simp add: example_defs readable_def)
  have m: "map status_completed example_tasks = [True, True, False, False, False, False]"
    by (simp add: example_defs status_completed_def eq_up_to_case_def same_letter_def
          case_pairs_def)
  have v: "computeStats example_browser example_tasks
             = Inr \<lparr>completed = 2, pending = 4, dueSoon = 1\<rparr>"
    by (simp add: example_defs compute_defs)
  from computeStats_status_up_to_case [OF r, of example_browser] r m v
  show ?thesis by simp
qed

text \<open>
  C8. A task that is not completed and whose due date is absent or is no valid date is
  counted as pending and not as due soon, and counting it throws nothing: the callback
  adds one to \<open>pending\<close> and nothing else, for every state of the counters; and wherever
  such a task stands in a list, \<^verbatim>\<open>computeStats\<close> returns what it returns for the list
  without it, with one more pending task (it throws only where the rest of the list makes
  it throw).
\<close>

theorem computeStats_unparsable_due_date:
  assumes "readable task" and "\<not> status_completed task" and "parsed_due b task = None"
  shows "countTask b st task = Inr (st\<lparr>pending := pending st + 1\<rparr>)
         \<and> computeStats b (xs @ task # ys) =
             (case computeStats b (xs @ ys) of
                Inl e \<Rightarrow> Inl e
              | Inr st' \<Rightarrow> Inr (st'\<lparr>pending := pending st' + 1\<rparr>))"
proof
  from assms have nd: "\<not> due_soon b task" by (simp add: due_soon_def)
  with assms show "countTask b st task = Inr (st\<lparr>pending := pending st + 1\<rparr>)"
    by (simp add: countTask_readable)
  show "computeStats b (xs @ task # ys) =
             (case computeStats b (xs @ ys) of
                Inl e \<Rightarrow> Inl e
              | Inr st' \<Rightarrow> Inr (st'\<lparr>pending := pending st' + 1\<rparr>))"
  proof (cases "list_all readable (xs @ ys)")
    case True
    with assms(1) have "list_all readable (xs @ task # ys)" by simp
    from computeStats_readable [OF this, of b] computeStats_readable [OF True, of b]
    show ?thesis using assms(2) nd by simp
  next
    case False
    then have "\<not> list_all readable (xs @ task # ys)" by auto
    with False show ?thesis by (simp add: computeStats_unreadable)
  qed
qed

text \<open>With the due date \<^verbatim>\<open>next week\<close>, between two other tasks, and with no due date.\<close>

theorem computeStats_unparsable_due_date_witness:
  "readable task_bad_date \<and> \<not> status_completed task_bad_date
   \<and> parsed_due example_browser task_bad_date = None
   \<and> readable task_undated \<and> \<not> status_completed task_undated
   \<and> parsed_due example_browser task_undated = None
   \<and> computeStats example_browser [task_done, task_bad_date, task_at_threshold]
       = Inr \<lparr>completed = 1, pending = 2, dueSoon = 1\<rparr>
   \<and> computeStats example_browser [task_done, task_at_threshold]
       = Inr \<lparr>completed = 1, pending = 1, dueSoon = 1\<rparr>
   \<and> computeStats example_browser [task_undated]
       = Inr \<lparr>completed = 0, pending = 1, dueSoon = 0\<rparr>"
proof -
  have 1: "readable task_bad_date" "readable task_undated"
    by (simp_all add: example_defs readable_def)
  have 2: "\<not> status_completed task_bad_date" "\<not> status_completed task_undated"
    by (simp_all add: example_defs status_completed_def eq_up_to_case_def)
  have 3: "parsed_due example_browser task_bad_date = None"
          "parsed_due example_browser task_undated = None"
    by (simp_all add: example_defs parsed_due_def)
  have 4: "computeStats example_browser [task_done, task_at_threshold]
       = Inr \<lparr>completed = 1, pending = 1, dueSoon = 1\<rparr>"
    by (simp add: example_defs compute_defs)
  have 5: "computeStats example_browser [] = Inr \<lparr>completed = 0, pending = 0, dueSoon = 0\<rparr>"
    by (simp add: computeStats_def)
  from computeStats_unparsable_due_date
         [OF 1(1) 2(1) 3(1), of "\<lparr>completed = 0, pending = 0, dueSoon = 0\<rparr>"
            "[task_done]" "[task_at_threshold]"]
       computeStats_unparsable_due_date
         [OF 1(2) 2(2) 3(2), of "\<lparr>completed = 0, pending = 0, dueSoon = 0\<rparr>" "[]" "[]"]
       1 2 3 4 5
  show ?thesis by simp
qed

text \<open>
  C4. The threshold of \<^verbatim>\<open>computeStats\<close> is now plus 7 calendar days: the same local time
  of day seven days later, by the calendar and not by elapsed seconds. On a list of tasks
  whose status is a string or absent, \<open>dueSoon\<close> counts exactly the tasks that are not
  completed and whose parsed due timestamp lies between now and that threshold, both
  bounds included. So a pending task with due timestamp \<open>d\<close> is due soon exactly when
  \<open>now \<le> d \<le> T\<close>, where \<open>T\<close> is now plus 7 calendar days: at \<open>d = T\<close> it is, one
  second later it is not. A completed task is never due soon, whatever its due date.
\<close>

theorem computeStats_due_soon_window:
  "dueSoonThreshold b = plus_calendar_days b (now_ms b) 7
   \<and> (list_all readable tasks \<longrightarrow>
        (\<exists>st. computeStats b tasks = Inr st \<and> dueSoon st = length (filter (due_soon b) tasks)))
   \<and> (readable task \<and> \<not> status_completed task \<and> parsed_due b task = Some d
        \<and> plus_calendar_days b (now_ms b) 7 = Some T \<longrightarrow>
        computeStats b [task] =
          Inr \<lparr>completed = 0, pending = 1,
               dueSoon = (if now_ms b \<le> d \<and> d \<le> T then 1 else 0)\<rparr>)
   \<and> (status_completed task \<longrightarrow>
        computeStats b [task] = Inr \<lparr>completed = 1, pending = 0, dueSoon = 0\<rparr>)"
proof (intro conjI impI)
  show "dueSoonThreshold b = plus_calendar_days b (now_ms b) 7"
    by (rule dueSoonThreshold_calendar)
next
  assume "list_all readable tasks"
  then show "\<exists>st. computeStats b tasks = Inr st \<and> dueSoon st = length (filter (due_soon b) tasks)"
    by (simp add: computeStats_readable)
next
  assume a: "readable task \<and> \<not> status_completed task \<and> parsed_due b task = Some d
        \<and> plus_calendar_days b (now_ms b) 7 = Some T"
  then have "list_all readable [task]" by simp
  from computeStats_readable [OF this, of b] a
  show "computeStats b [task] =
          Inr \<lparr>completed = 0, pending = 1,
               dueSoon = (if now_ms b \<le> d \<and> d \<le> T then 1 else 0)\<rparr>"
    by (simp add: due_soon_def)
next
  assume c: "status_completed task"
  then have "readable task"
    by (auto simp: status_completed_def readable_def split: sum.splits jsval.splits)
  then have "list_all readable [task]" by simp
  from computeStats_readable [OF this, of b] c
  show "computeStats b [task] = Inr \<lparr>completed = 1, pending = 0, dueSoon = 0\<rparr>"
    by (simp add: due_soon_def)
qed

text \<open>
  In a zone that moves its clocks forward within the week: now plus 7 calendar days is
  2024-03-15T16:00:00Z, one hour less than 7 times 24 hours after now. The task due at
  that instant is due soon, the task due one second later is not, and the completed task
  due within the week is not.
\<close>

theorem computeStats_due_soon_window_witness:
  "plus_calendar_days example_browser (now_ms example_browser) 7 = Some 1710518400000
   \<and> now_ms example_browser + 7 * msPerDay = 1710522000000
   \<and> parsed_due example_browser task_at_threshold = Some 1710518400000
   \<and> computeStats example_browser [task_at_threshold]
       = Inr \<lparr>completed = 0, pending = 1, dueSoon = 1\<rparr>
   \<and> parsed_due example_browser task_after_threshold = Some (1710518400000 + 1000)
   \<and> computeStats example_browser [task_after_threshold]
       = Inr \<lparr>completed = 0, pending = 1, dueSoon = 0\<rparr>
   \<and> status_completed task_done
   \<and> parsed_due example_browser task_done = Some 1710237600000
   \<and> computeStats example_browser [task_done]
       = Inr \<lparr>completed = 1, pending = 0, dueSoon = 0\<rparr>
   \<and> list_all readable example_tasks
   \<and> filter (due_soon example_browser) example_tasks = [task_at_threshold]
   \<and> computeStats example_browser example_tasks
       = Inr \<lparr>completed = 2, pending = 4, dueSoon = 1\<rparr>"
proof -
  have T: "plus_calendar_days example_browser (now_ms example_browser) 7 = Some 1710518400000"
    and n: "now_ms example_browser = 1709917200000"
    by (simp_all add: example_defs compute_defs)
  have r: "readable task_at_threshold" "readable task_after_threshold"
      "list_all readable example_tasks"
    by (simp_all add: example_defs readable_def)
  have c: "\<not> status_completed task_at_threshold" "\<not> status_completed task_after_threshold"
      "status_completed task_done"
    by (simp_all add: example_defs status_completed_def eq_up_to_case_def same_letter_def
          case_pairs_def)
  have p: "parsed_due example_browser task_at_threshold = Some 1710518400000"
      "parsed_due example_browser task_after_threshold = Some (1710518400000 + 1000)"
      "parsed_due example_browser task_done = Some 1710237600000"
    by (simp_all add: example_defs parsed_due_def)
  have f: "filter (due_soon example_browser) example_tasks = [task_at_threshold]"
    by (simp add: example_defs due_soon_def parsed_due_def status_completed_def
          eq_up_to_case_def same_letter_def case_pairs_def plus_calendar_days_def TimeClip_def
          UTC_def LocalTime_def msPerDay_def)
  have v: "computeStats example_browser example_tasks
             = Inr \<lparr>completed = 2, pending = 4, dueSoon = 1\<rparr>"
    by (simp add: example_defs compute_defs)
  from computeStats_due_soon_window
         [of example_browser example_tasks task_at_threshold 1710518400000 1710518400000]
       computeStats_due_soon_window
         [of example_browser example_tasks task_after_threshold "1710518400000 + 1000" 1710518400000]
       computeStats_due_soon_window
         [of example_browser example_tasks task_done 0 0]
       T n r c p f v
  show ?thesis by (simp add: msPerDay_def)
qed

section \<open>Local tasks and the choice of the source\<close>

lemma getLocalTasks_key_sound:
  assumes "task \<in> set (getLocalTasks_key b ls tasks key)"
  shows "task \<in> set tasks \<or>
         (prefix ''task_'' key \<and> JSON_parse b (getItem_or ls key ''{}'') = Some task
          \<and> get_prop task ''user_id'' = Inr (JString ''guest''))"
  using assms
  by (auto simp: getLocalTasks_key_def split: if_splits option.splits sum.splits)

lemma getLocalTasks_loop_sound:
  assumes "task \<in> set (getLocalTasks_loop b ls tasks ks)"
  shows "task \<in> set tasks \<or>
         (\<exists>key \<in> set ks. prefix ''task_'' key
            \<and> JSON_parse b (getItem_or ls key ''{}'') = Some task
            \<and> get_prop task ''user_id'' = Inr (JString ''guest''))"
  using assms
proof (induction ks arbitrary: tasks)
  case Nil
  then show ?case by simp
next
  case (Cons key ks)
  from Cons.IH [of "getLocalTasks_key b ls tasks key"] Cons.prems
  have "task \<in> set (getLocalTasks_key b ls tasks key) \<or>
         (\<exists>key \<in> set ks. prefix ''task_'' key
            \<and> JSON_parse b (getItem_or ls key ''{}'') = Some task
            \<and> get_prop task ''user_id'' = Inr (JString ''guest''))"
    by simp
  with getLocalTasks_key_sound [of task b ls tasks key] show ?case by auto
qed

text \<open>
  C7. Every task \<^verbatim>\<open>getLocalTasks\<close> returns is the parsed value of an item stored under a
  key that starts with \<^verbatim>\<open>task_\<close>, and its \<^verbatim>\<open>user_id\<close> is the string \<^verbatim>\<open>guest\<close>; so no task
  with the owner tag \<^verbatim>\<open>registered\<close> is ever returned.
\<close>

theorem getLocalTasks_only_guest:
  assumes "task \<in> set (getLocalTasks b ls)"
  shows "(\<exists>key \<in> set (keys ls). prefix ''task_'' key
            \<and> JSON_parse b (getItem_or ls key ''{}'') = Some task)
         \<and> get_prop task ''user_id'' = Inr (JString ''guest'')
         \<and> get_prop task ''user_id'' \<noteq> Inr (JString ''registered'')"
  using getLocalTasks_loop_sound [of task b ls "[]" "keys ls"] assms
  by (auto simp: getLocalTasks_def)

text \<open>The example storage holds a guest task, a registered task, a malformed item and a
  course; the scan returns the guest task only.\<close>

theorem getLocalTasks_only_guest_witness:
  "getLocalTasks example_browser example_storage = [parsed_guest_task]
   \<and> JSON_parse example_browser (getItem_or example_storage ''task_a'' ''{}'') = Some parsed_guest_task
   \<and> JSON_parse example_browser (getItem_or example_storage ''task_b'' ''{}'') = Some parsed_registered_task
   \<and> get_prop parsed_guest_task ''user_id'' = Inr (JString ''guest'')
   \<and> get_prop parsed_registered_task ''user_id'' = Inr (JString ''registered'')"
proof -
  have v: "getLocalTasks example_browser example_storage = [parsed_guest_task]"
    by (simp add: getLocalTasks_def getLocalTasks_key_def getItem_or_def getItem_def keys_def
          example_defs)
  then have "parsed_guest_task \<in> set (getLocalTasks example_browser example_storage)"
    by simp
  from getLocalTasks_only_guest [OF this] v show ?thesis
    by (simp add: getItem_or_def getItem_def example_defs)
qed

text \<open>The fields \<^verbatim>\<open>fetchSupabaseTasks\<close> picks are those \<^verbatim>\<open>computeStats\<close> reads: the stats of
  the picked tasks are the stats of the fetched ones.\<close>

lemma get_prop_not_nullish: "\<not> nullish task \<Longrightarrow> \<exists>v. get_prop task n = Inr v"
  by (cases task) auto

lemma get_prop_nullish: "nullish task \<Longrightarrow> get_prop task n = Inl TypeError"
  by (cases task) auto

lemma pickTaskFields_Inr:
  assumes "pickTaskFields task = Inr picked"
  shows "get_prop picked ''status'' = get_prop task ''status''
         \<and> get_prop picked ''due_date'' = get_prop task ''due_date''"
  using assms
  by (auto simp: pickTaskFields_def split: sum.splits)

lemma countTask_picked:
  assumes "pickTaskFields task = Inr picked"
  shows "countTask b st picked = countTask b st task"
proof -
  from pickTaskFields_Inr [OF assms]
  have s: "get_prop picked ''status'' = get_prop task ''status''"
    and d: "get_prop picked ''due_date'' = get_prop task ''due_date''"
    by simp_all
  show ?thesis unfolding countTask_def s d by (rule refl)
qed

lemma forEach_countTask_picked:
  "map_pickTaskFields ts = Inr picked \<Longrightarrow>
   forEach_countTask b st picked = forEach_countTask b st ts"
proof (induction ts arbitrary: picked st)
  case Nil
  then show ?case by simp
next
  case (Cons t ts)
  then obtain p ps where p: "pickTaskFields t = Inr p" and ps: "map_pickTaskFields ts = Inr ps"
    and picked: "picked = p # ps"
    by (auto split: sum.splits)
  show ?case
    by (simp add: picked countTask_picked [OF p] Cons.IH [OF ps] cong: sum.case_cong)
qed

lemma map_pickTaskFields_length:
  "map_pickTaskFields ts = Inr picked \<Longrightarrow> length picked = length ts"
  by (induction ts arbitrary: picked) (auto split: sum.splits)

lemma pickTaskFields_not_nullish: "\<not> nullish task \<Longrightarrow> \<exists>p. pickTaskFields task = Inr p"
  by (cases task) (auto simp: pickTaskFields_def)

lemma map_pickTaskFields_not_nullish:
  "list_all (\<lambda>t. \<not> nullish t) ts \<Longrightarrow> \<exists>picked. map_pickTaskFields ts = Inr picked"
proof (induction ts)
  case Nil
  then show ?case by simp
next
  case (Cons t ts)
  then obtain ps where "map_pickTaskFields ts = Inr ps" by auto
  moreover from Cons.prems pickTaskFields_not_nullish [of t]
  obtain p where "pickTaskFields t = Inr p" by auto
  ultimately show ?case by simp
qed

lemma fetchSupabaseTasks_array:
  assumes "get_prop data ''tasks'' = Inr (JArray ts)" and "list_all (\<lambda>t. \<not> nullish t) ts"
  shows "\<exists>picked. fetchSupabaseTasks (Inr data) = Some picked \<and> length picked = length ts
           \<and> computeStats b picked = computeStats b ts"
proof -
  from map_pickTaskFields_not_nullish [OF assms(2)]
  obtain picked where p: "map_pickTaskFields ts = Inr picked" by blast
  with assms(1) have "fetchSupabaseTasks (Inr data) = Some picked"
    by (simp add: fetchSupabaseTasks_def)
  with p show ?thesis
    by (simp add: map_pickTaskFields_length computeStats_def forEach_countTask_picked)
qed

text \<open>
  C3. With an access token stored, when \<^verbatim>\<open>fetchSupabaseTasks\<close> returns a list that is not
  empty, the stats \<^verbatim>\<open>refreshStats\<close> sets are those of exactly that list; they are the stats
  of the fetched tasks themselves when the remote returns an array of tasks that is not
  empty. When the remote fetch fails (it throws, or \<^verbatim>\<open>fetchSupabaseTasks\<close> returns
  \<^verbatim>\<open>null\<close>), when it returns an empty list, or when no access token is stored, the stats
  are those of exactly the list \<^verbatim>\<open>getLocalTasks\<close> returns, the guest tasks in local
  storage.
\<close>

theorem refreshStats_precedence:
  "(present (getItem ls ''access_token'') \<and> fetchSupabaseTasks fetched = Some remote
      \<and> remote \<noteq> [] \<longrightarrow>
        refreshStats b ls fetched = computeStats b remote)
   \<and> (present (getItem ls ''access_token'') \<and> fetched = Inr data
      \<and> get_prop data ''tasks'' = Inr (JArray ts) \<and> ts \<noteq> []
      \<and> list_all (\<lambda>t. \<not> nullish t) ts \<longrightarrow>
        refreshStats b ls fetched = computeStats b ts)
   \<and> ((\<exists>e. fetched = Inl e) \<or> fetchSupabaseTasks fetched = None
        \<or> fetchSupabaseTasks fetched = Some [] \<or> \<not> present (getItem ls ''access_token'') \<longrightarrow>
        refreshStats b ls fetched = computeStats b (getLocalTasks b ls))"
proof (intro conjI impI)
  assume "present (getItem ls ''access_token'') \<and> fetchSupabaseTasks fetched = Some remote
      \<and> remote \<noteq> []"
  then show "refreshStats b ls fetched = computeStats b remote"
    by (simp add: refreshStats_def)
next
  assume a: "present (getItem ls ''access_token'') \<and> fetched = Inr data
      \<and> get_prop data ''tasks'' = Inr (JArray ts) \<and> ts \<noteq> []
      \<and> list_all (\<lambda>t. \<not> nullish t) ts"
  with fetchSupabaseTasks_array [of data ts b]
  obtain picked where "fetchSupabaseTasks fetched = Some picked"
    and n: "length picked = length ts"
    and "computeStats b picked = computeStats b ts"
    by auto
  moreover from n a have "picked \<noteq> []" by auto
  ultimately show "refreshStats b ls fetched = computeStats b ts"
    using a by (simp add: refreshStats_def)
next
  assume "(\<exists>e. fetched = Inl e) \<or> fetchSupabaseTasks fetched = None
        \<or> fetchSupabaseTasks fetched = Some [] \<or> \<not> present (getItem ls ''access_token'')"
  moreover have "(\<exists>e. fetched = Inl e) \<Longrightarrow> fetchSupabaseTasks fetched = None"
    by (auto simp: fetchSupabaseTasks_def)
  ultimately show "refreshStats b ls fetched = computeStats b (getLocalTasks b ls)"
    by (auto simp: refreshStats_def)
qed

text \<open>Logged in with two remote tasks, with a remote that rejects, with an empty remote
  list, and as a guest.\<close>

theorem refreshStats_precedence_witness:
  "present (getItem logged_in_storage ''access_token'')
   \<and> \<not> present (getItem example_storage ''access_token'')
   \<and> getLocalTasks example_browser logged_in_storage = [parsed_guest_task]
   \<and> getLocalTasks example_browser example_storage = [parsed_guest_task]
   \<and> computeStats example_browser [parsed_guest_task]
       = Inr \<lparr>completed = 1, pending = 0, dueSoon = 0\<rparr>
   \<and> computeStats example_browser [task_at_threshold, task_undated]
       = Inr \<lparr>completed = 0, pending = 2, dueSoon = 1\<rparr>
   \<and> refreshStats example_browser logged_in_storage (Inr remote_data)
       = Inr \<lparr>completed = 0, pending = 2, dueSoon = 1\<rparr>
   \<and> refreshStats example_browser logged_in_storage (Inl Rejected)
       = Inr \<lparr>completed = 1, pending = 0, dueSoon = 0\<rparr>
   \<and> refreshStats example_browser logged_in_storage (Inr (JObject [(''tasks'', JArray [])]))
       = Inr \<lparr>completed = 1, pending = 0, dueSoon = 0\<rparr>
   \<and> refreshStats example_browser example_storage (Inr remote_data)
       = Inr \<lparr>completed = 1, pending = 0, dueSoon = 0\<rparr>"
proof -
  have t: "present (getItem logged_in_storage ''access_token'')"
      "\<not> present (getItem example_storage ''access_token'')"
    by (simp_all add: getItem_def example_defs)
  have l: "getLocalTasks example_browser logged_in_storage = [parsed_guest_task]"
      "getLocalTasks example_browser example_storage = [parsed_guest_task]"
    by (simp_all add: getLocalTasks_def getLocalTasks_key_def
          getItem_or_def getItem_def keys_def example_defs)
  have c: "computeStats example_browser [parsed_guest_task]
             = Inr \<lparr>completed = 1, pending = 0, dueSoon = 0\<rparr>"
      "computeStats example_browser [task_at_threshold, task_undated]
             = Inr \<lparr>completed = 0, pending = 2, dueSoon = 1\<rparr>"
    by (simp_all add: example_defs compute_defs)
  have r: "get_prop remote_data ''tasks'' = Inr (JArray [task_at_threshold, task_undated])"
      "list_all (\<lambda>t. \<not> nullish t) [task_at_threshold, task_undated]"
    by (simp_all add: example_defs)
  have e: "fetchSupabaseTasks (Inr (JObject [(''tasks'', JArray [])])) = Some []"
    by (simp add: fetchSupabaseTasks_def)
  note remote = refreshStats_precedence
      [of logged_in_storage "Inr remote_data" "[]" example_browser remote_data
          "[task_at_threshold, task_undated]"]
  note failed = refreshStats_precedence
      [of logged_in_storage "Inl Rejected" "[]" example_browser remote_data "[]"]
  note empty = refreshStats_precedence
      [of logged_in_storage "Inr (JObject [(''tasks'', JArray [])])" "[]" example_browser
          remote_data "[]"]
  note guest = refreshStats_precedence
      [of example_storage "Inr remote_data" "[]" example_browser remote_data "[]"]
  from remote t r c have 1:
    "refreshStats example_browser logged_in_storage (Inr remote_data)
       = Inr \<lparr>completed = 0, pending = 2, dueSoon = 1\<rparr>"
    by simp
  from failed l c have 2:
    "refreshStats example_browser logged_in_storage (Inl Rejected)
       = Inr \<lparr>completed = 1, pending = 0, dueSoon = 0\<rparr>"
    by simp
  from empty e l c have 3:
    "refreshStats example_browser logged_in_storage (Inr (JObject [(''tasks'', JArray [])]))
       = Inr \<lparr>completed = 1, pending = 0, dueSoon = 0\<rparr>"
    by simp
  from guest t l c have 4:
    "refreshStats example_browser example_storage (Inr remote_data)
       = Inr \<lparr>completed = 1, pending = 0, dueSoon = 0\<rparr>"
    by simp
  from t l c 1 2 3 4 show ?thesis by simp
qed

section \<open>Guest session\<close>

lemma createGuestSessionInBackend_calls:
  "createGuestSessionInBackend fetch sessionId = [sessionRequest sessionId]"
  by (simp add: createGuestSessionInBackend_def split: sum.splits)

lemma getOrCreateGuestSession_existing:
  "getItem ls ''guest_session_id'' = Some t \<Longrightarrow> t \<noteq> [] \<Longrightarrow>
   getOrCreateGuestSession fetch uuid ls = (t, ls, [])"
  by (simp add: getOrCreateGuestSession_def Let_def)

lemma getOrCreateGuestSession_absent:
  "\<not> present (getItem ls ''guest_session_id'') \<Longrightarrow>
   getOrCreateGuestSession fetch uuid ls =
     (''guest-'' @ uuid, setItem ls ''guest_session_id'' (''guest-'' @ uuid),
      [sessionRequest (''guest-'' @ uuid)])"
  by (cases "getItem ls ''guest_session_id''")
     (simp_all add: getOrCreateGuestSession_def createGuestSessionInBackend_calls Let_def)

lemma getOrCreateGuestSession_stored:
  "getOrCreateGuestSession fetch uuid ls = (t, ls', calls) \<Longrightarrow>
   getItem ls' ''guest_session_id'' = Some t \<and> t \<noteq> [] \<and> length calls \<le> 1"
  by (cases "getItem ls ''guest_session_id''")
     (auto simp: getOrCreateGuestSession_def createGuestSessionInBackend_calls getItem_setItem
           Let_def split: if_splits)

text \<open>
  C6. \<^verbatim>\<open>getOrCreateGuestSession\<close> is idempotent. A token that is stored (a non-empty
  string: the code tests \<^verbatim>\<open>!sessionId\<close>) is returned as it is, the storage stays as it
  is and no request is issued. Two calls in a row, whatever the second random id and
  whatever the remote answers, return the same token, the second changes nothing and
  issues no request, so at most one registration is issued in total. With no token
  stored, the token is \<^verbatim>\<open>guest-\<close> followed by the random id, it is stored under
  \<^verbatim>\<open>guest_session_id\<close>, and one registration request is issued. What the remote answers
  to the registration, a rejection included, changes neither the token nor the storage.
\<close>

theorem getOrCreateGuestSession_idempotent:
  "(\<forall>t. getItem ls ''guest_session_id'' = Some t \<and> t \<noteq> [] \<longrightarrow>
        getOrCreateGuestSession fetch uuid ls = (t, ls, []))
   \<and> (case getOrCreateGuestSession fetch uuid ls of
         (t1, ls1, calls1) \<Rightarrow>
           (case getOrCreateGuestSession fetch' uuid' ls1 of
              (t2, ls2, calls2) \<Rightarrow>
                t2 = t1 \<and> ls2 = ls1 \<and> calls2 = [] \<and> length (calls1 @ calls2) \<le> 1))
   \<and> (\<not> present (getItem ls ''guest_session_id'') \<longrightarrow>
        getOrCreateGuestSession fetch uuid ls =
          (''guest-'' @ uuid, setItem ls ''guest_session_id'' (''guest-'' @ uuid),
           [sessionRequest (''guest-'' @ uuid)])
        \<and> getItem (setItem ls ''guest_session_id'' (''guest-'' @ uuid)) ''guest_session_id''
            = Some (''guest-'' @ uuid))
   \<and> getOrCreateGuestSession fetch uuid ls = getOrCreateGuestSession fetch' uuid ls"
proof (intro conjI allI impI)
  fix t assume "getItem ls ''guest_session_id'' = Some t \<and> t \<noteq> []"
  then show "getOrCreateGuestSession fetch uuid ls = (t, ls, [])"
    by (simp add: getOrCreateGuestSession_existing)
next
  obtain t1 ls1 calls1 where r: "getOrCreateGuestSession fetch uuid ls = (t1, ls1, calls1)"
    by (cases "getOrCreateGuestSession fetch uuid ls") auto
  from getOrCreateGuestSession_stored [OF r]
  have "getOrCreateGuestSession fetch' uuid' ls1 = (t1, ls1, [])" and "length calls1 \<le> 1"
    by (simp_all add: getOrCreateGuestSession_existing)
  with r show "case getOrCreateGuestSession fetch uuid ls of
         (t1, ls1, calls1) \<Rightarrow>
           (case getOrCreateGuestSession fetch' uuid' ls1 of
              (t2, ls2, calls2) \<Rightarrow>
                t2 = t1 \<and> ls2 = ls1 \<and> calls2 = [] \<and> length (calls1 @ calls2) \<le> 1)"
    by simp
next
  assume "\<not> present (getItem ls ''guest_session_id'')"
  then show "getOrCreateGuestSession fetch uuid ls =
          (''guest-'' @ uuid, setItem ls ''guest_session_id'' (''guest-'' @ uuid),
           [sessionRequest (''guest-'' @ uuid)])"
    by (rule getOrCreateGuestSession_absent)
next
  show "getItem (setItem ls ''guest_session_id'' (''guest-'' @ uuid)) ''guest_session_id''
            = Some (''guest-'' @ uuid)"
    by (simp add: getItem_setItem)
next
  show "getOrCreateGuestSession fetch uuid ls = getOrCreateGuestSession fetch' uuid ls"
    by (simp add: getOrCreateGuestSession_def createGuestSessionInBackend_calls Let_def)
qed

text \<open>At a stored token \<^verbatim>\<open>guest-T1\<close>, and at an empty storage followed by a second call,
  with a remote that rejects every request.\<close>

theorem getOrCreateGuestSession_idempotent_witness:
  "getOrCreateGuestSession (\<lambda>req. Inl Rejected) ''1b4e28ba'' [(''guest_session_id'', ''guest-T1'')]
     = (''guest-T1'', [(''guest_session_id'', ''guest-T1'')], [])
   \<and> getOrCreateGuestSession (\<lambda>req. Inl Rejected) ''1b4e28ba'' []
     = (''guest-1b4e28ba'', [(''guest_session_id'', ''guest-1b4e28ba'')],
        [sessionRequest ''guest-1b4e28ba''])
   \<and> getOrCreateGuestSession (\<lambda>req. Inl Rejected) ''9f3c''
        [(''guest_session_id'', ''guest-1b4e28ba'')]
     = (''guest-1b4e28ba'', [(''guest_session_id'', ''guest-1b4e28ba'')], [])"
proof -
  note existing = getOrCreateGuestSession_idempotent
          [of "[(''guest_session_id'', ''guest-T1'')]" "\<lambda>req. Inl Rejected" "''1b4e28ba''"
              "\<lambda>req. Inl Rejected" "''9f3c''"]
  note absent = getOrCreateGuestSession_idempotent
          [of "[]" "\<lambda>req. Inl Rejected" "''1b4e28ba''" "\<lambda>req. Inl Rejected" "''9f3c''"]
  from existing have 1:
    "getOrCreateGuestSession (\<lambda>req. Inl Rejected) ''1b4e28ba'' [(''guest_session_id'', ''guest-T1'')]
       = (''guest-T1'', [(''guest_session_id'', ''guest-T1'')], [])"
    by (simp add: getItem_def)
  from absent have 2:
    "getOrCreateGuestSession (\<lambda>req. Inl Rejected) ''1b4e28ba'' []
       = (''guest-1b4e28ba'', [(''guest_session_id'', ''guest-1b4e28ba'')],
          [sessionRequest ''guest-1b4e28ba''])"
    by (simp add: getItem_def setItem_def)
  note twice = absent [THEN conjunct2, THEN conjunct1]
  from twice have 3:
    "getOrCreateGuestSession (\<lambda>req. Inl Rejected) ''9f3c''
        [(''guest_session_id'', ''guest-1b4e28ba'')]
       = (''guest-1b4e28ba'', [(''guest_session_id'', ''guest-1b4e28ba'')], [])"
    unfolding 2 by (auto split: prod.splits)
  from 1 2 3 show ?thesis by blast
qed

section \<open>Migration\<close>

text \<open>
  C5. When the remote call of the migration fails (the request is rejected, the response
  is not ok, or the body of an ok response cannot be read), \<^verbatim>\<open>migrateGuestData\<close> returns
  \<^verbatim>\<open>{ migrated_tasks: 0, migrated_courses: 0 }\<close> and local storage is what it was: the
  guest token and every other key are still there with their values, so the migration
  can be tried again.
\<close>

theorem migrateGuestData_failure:
  assumes "\<And>sid. getGuestSessionId ls = Some sid \<Longrightarrow> sid \<noteq> [] \<Longrightarrow>
             migrate_call_failed (fetch (migrateRequest sid userId))"
  shows "migrateGuestData fetch ls userId = (nothing_migrated, ls)"
  using assms
  by (auto simp: migrateGuestData_def split: option.splits sum.splits if_splits)

text \<open>In the scenario of the cleanup test, with a remote that rejects the request and
  with one that answers with a response that is not ok.\<close>

theorem migrateGuestData_failure_witness:
  "migrateGuestData (\<lambda>req. Inl Rejected) P7_storage ''user-1'' = (nothing_migrated, P7_storage)
   \<and> migrateGuestData (\<lambda>req. Inr \<lparr>ok = False, json = Inr JNull\<rparr>) P7_storage ''user-1''
       = (nothing_migrated, P7_storage)
   \<and> getGuestSessionId P7_storage = Some ''guest-T1''"
  using migrateGuestData_failure [of P7_storage "\<lambda>req. Inl Rejected" "''user-1''"]
        migrateGuestData_failure
          [of P7_storage "\<lambda>req. Inr \<lparr>ok = False, json = Inr JNull\<rparr>" "''user-1''"]
  by (simp add: getGuestSessionId_def getItem_def P7_storage_def)

text \<open>
  C2, as the claim states it, fails: after a migration that the remote answers with an ok
  response, the task and course keys of the guest are still in local storage; only the
  guest token is gone.
\<close>

theorem migrateGuestData_success_counterexample:
  "keys (snd (migrateGuestData
       (\<lambda>req. Inr \<lparr>ok = True,
                    json = Inr (JObject [(''migrated_tasks'', JNumber 3),
                                         (''migrated_courses'', JNumber 1)])\<rparr>)
       P7_storage ''user-1''))
   = [''task_a'', ''task_b'', ''task_c'', ''course_x'', ''course_x_tasks'', ''access_token'']"
  by (simp add: migrateGuestData_def getGuestSessionId_def getItem_def clearGuestSession_def
        removeItem_def keys_def P7_storage_def)

text \<open>
  C2, amended. With a guest token stored, when the remote answers the migrate request with
  an ok response whose body reads as \<open>data\<close>, \<^verbatim>\<open>migrateGuestData\<close> returns \<open>data\<close> (the
  counts the remote reports) and removes the key \<^verbatim>\<open>guest_session_id\<close> and nothing else:
  every other key, the \<^verbatim>\<open>task_\<close> and \<^verbatim>\<open>course_\<close> keys included, keeps its place and its
  value.
\<close>

theorem migrateGuestData_success:
  assumes "getGuestSessionId ls = Some sid" and "sid \<noteq> []"
    and "fetch (migrateRequest sid userId) = Inr r" and "ok r" and "json r = Inr data"
  shows "migrateGuestData fetch ls userId = (data, removeItem ls ''guest_session_id'')
         \<and> getGuestSessionId (snd (migrateGuestData fetch ls userId)) = None
         \<and> (\<forall>k. k \<noteq> ''guest_session_id'' \<longrightarrow>
               getItem (snd (migrateGuestData fetch ls userId)) k = getItem ls k)
         \<and> keys (snd (migrateGuestData fetch ls userId))
             = filter (\<lambda>k. k \<noteq> ''guest_session_id'') (keys ls)"
  using assms
  by (simp add: migrateGuestData_def clearGuestSession_def getGuestSessionId_def
        getItem_removeItem keys_removeItem)

theorem migrateGuestData_success_witness:
  "migrateGuestData
       (\<lambda>req. Inr \<lparr>ok = True,
                    json = Inr (JObject [(''migrated_tasks'', JNumber 3),
                                         (''migrated_courses'', JNumber 1)])\<rparr>)
       P7_storage ''user-1''
     = (JObject [(''migrated_tasks'', JNumber 3), (''migrated_courses'', JNumber 1)],
        removeItem P7_storage ''guest_session_id'')
   \<and> getGuestSessionId P7_storage = Some ''guest-T1''"
  using migrateGuestData_success
          [of P7_storage "''guest-T1''"
              "\<lambda>req. Inr \<lparr>ok = True,
                    json = Inr (JObject [(''migrated_tasks'', JNumber 3),
                                         (''migrated_courses'', JNumber 1)])\<rparr>"
              "''user-1''"
              "\<lparr>ok = True,
                    json = Inr (JObject [(''migrated_tasks'', JNumber 3),
                                         (''migrated_courses'', JNumber 1)])\<rparr>"
              "JObject [(''migrated_tasks'', JNumber 3), (''migrated_courses'', JNumber 1)]"]
  by (simp add: getGuestSessionId_def getItem_def P7_storage_def)

section \<open>Logout\<close>

lemma handleLogout_guestKeys: "guestKeys (handleLogout ls) = guestKeys ls"
  unfolding guestKeys_def handleLogout_def keys_removeItem filter_filter
  by (rule filter_cong) (auto simp: isGuestKey_def)

text \<open>
  C1. The logout of the navigation bar removes \<^verbatim>\<open>access_token\<close>, \<^verbatim>\<open>user_email\<close> and
  \<^verbatim>\<open>user_id\<close> only. In the scenario of the cleanup test, the six guest keys are all still
  stored after it, and the check of \<^verbatim>\<open>test-logout-cleanup.js\<close>, which expects 0 after a
  logout, counts 6.
\<close>

theorem handleLogout_P7:
  "guestKeys (handleLogout P7_storage) =
     [''guest_session_id'', ''task_a'', ''task_b'', ''task_c'', ''course_x'', ''course_x_tasks'']
   \<and> checkLocalStorageData (handleLogout P7_storage) = 6"
  by (simp add: checkLocalStorageData_def guestKeys_def handleLogout_def removeItem_def
        keys_def isGuestKey_def P7_storage_def)

end
